theory Spec2Isabelle
  imports Complex_Main
begin

section \<open>JavaScript values\<close>

text \<open>
  The runner of \<^verbatim>\<open>src/plugins/scenario/Runner.ts\<close> is generic in the context type and
  relies on the dynamic behaviour of JavaScript in three places: the truthiness test of
  \<^verbatim>\<open>(await solution(ctx, world)) || ctx\<close>, the comparison \<^verbatim>\<open>actual !== expected\<close> and
  the values of type \<^verbatim>\<open>any\<close> that reach \<^verbatim>\<open>generateResult\<close>. Contexts, requirements and
  errors are therefore values of one type \<open>jsval\<close>.

  Numbers are exact rationals together with \<open>NaN\<close> and the two infinities: the rounding
  of IEEE doubles and the negative zero are not modelled. Objects are opaque references;
  what they refer to lives in the store that the collaborators read and write. An error
  object is an \<^verbatim>\<open>Error\<close> with its message and stack, or an \<^verbatim>\<open>AssertionError\<close> of chai, which
  also carries the actual and the expected value.

  The second source file, a class of actors that wraps calls to a contract, is used by
  scenario code only and has no part in what follows.
\<close>

datatype jsnum = Finite rat | NaN | PosInfinity | NegInfinity

datatype 'v error =
    Error (message: string) (stack: string)
  | AssertionError (message: string) (stack: string) (actual: 'v) (expected: 'v)

datatype jsval =
    JUndefined
  | JNull
  | JBoolean bool
  | JNumber jsnum
  | JString string
  | JObject nat
  | JError "jsval error"

text \<open>The falsy values are \<^verbatim>\<open>undefined\<close>, \<^verbatim>\<open>null\<close>, \<^verbatim>\<open>false\<close>, \<^verbatim>\<open>0\<close>, \<^verbatim>\<open>NaN\<close> and \<^verbatim>\<open>''\<close>.\<close>

fun truthy :: "jsval \<Rightarrow> bool" where
  "truthy JUndefined = False"
| "truthy JNull = False"
| "truthy (JBoolean b) = b"
| "truthy (JNumber n) = (n \<noteq> Finite 0 \<and> n \<noteq> NaN)"
| "truthy (JString s) = (s \<noteq> [])"
| "truthy (JObject r) = True"
| "truthy (JError e) = True"

text \<open>\<^verbatim>\<open>a !== b\<close>: \<open>NaN\<close> differs from everything, itself included; references are
  compared by identity. Error objects are compared by their contents.\<close>

definition strict_neq :: "jsval \<Rightarrow> jsval \<Rightarrow> bool" where
  "strict_neq a b = (a \<noteq> b \<or> a = JNumber NaN)"

text \<open>The operator \<^verbatim>\<open>/\<close> on numbers.\<close>

fun js_div :: "jsnum \<Rightarrow> jsnum \<Rightarrow> jsnum" where
  "js_div NaN y = NaN"
| "js_div x NaN = NaN"
| "js_div (Finite a) (Finite b) =
     (if b = 0 then (if a = 0 then NaN else if 0 < a then PosInfinity else NegInfinity)
      else Finite (a / b))"
| "js_div (Finite a) PosInfinity = Finite 0"
| "js_div (Finite a) NegInfinity = Finite 0"
| "js_div PosInfinity (Finite b) = (if 0 \<le> b then PosInfinity else NegInfinity)"
| "js_div NegInfinity (Finite b) = (if 0 \<le> b then NegInfinity else PosInfinity)"
| "js_div PosInfinity y = NaN"
| "js_div NegInfinity y = NaN"

section \<open>Collaborators\<close>

text \<open>
  Every collaborator (the world, the scenario's callbacks, the constraints, the solutions)
  is asynchronous code that may mutate the world and the objects reachable from the
  context, and may throw. It is a function from the store \<open>'s\<close> to the settled promise
  (\<open>Inl\<close> is a rejection with the thrown error) and the store it leaves behind. The
  \<^verbatim>\<open>world\<close> argument of the source is this store. JavaScript can throw any value; the
  model covers the throws of error objects.
\<close>

type_synonym ('s, 'a) call = "'s \<Rightarrow> (jsval error + 'a) \<times> 's"

text \<open>
  \<^verbatim>\<open>World\<close>, \<^verbatim>\<open>ForkSpec\<close>, \<^verbatim>\<open>Scenario\<close>, \<^verbatim>\<open>Constraint\<close>, \<^verbatim>\<open>Solution\<close> and \<^verbatim>\<open>Result\<close> are
  imported by \<^verbatim>\<open>Runner.ts\<close> from modules that are not among the sources. The records below
  hold the fields and methods that the runner uses: of the world, \<^verbatim>\<open>_snapshot\<close> and
  \<^verbatim>\<open>_revertAndSnapshot\<close>; of the fork, its name.
\<close>

record 's World =
  snapshot :: "('s, string) call"
  revertAndSnapshot :: "string \<Rightarrow> ('s, string) call"

record ForkSpec =
  fork_name :: string

record 's Config =
  base :: ForkSpec
  world :: "'s World"

text \<open>
  The receipt returned by a property is a contract receipt of the ethers library. The
  runner calls \<^verbatim>\<open>txnReceipt.cumulativeGasUsed.toNumber()\<close> on it; of the library's big
  numbers the model keeps what that call yields, a number or a throw.
\<close>

datatype BigNumber = BigNumber (toNumber: "jsval error + int")

record receipt =
  cumulativeGasUsed :: BigNumber

type_synonym 's solution = "jsval \<Rightarrow> ('s, jsval) call"

text \<open>What \<^verbatim>\<open>solve\<close> resolves to, \<^verbatim>\<open>Solution<T> | Solution<T>[] | null\<close>: \<open>None\<close> is
  \<^verbatim>\<open>null\<close>.\<close>

datatype 's solutions =
    One "jsval \<Rightarrow> 's \<Rightarrow> (jsval error + jsval) \<times> 's"
  | Many "(jsval \<Rightarrow> 's \<Rightarrow> (jsval error + jsval) \<times> 's) list"

type_synonym 's solved = "'s solutions option"

record 's Constraint =
  solve :: "jsval \<Rightarrow> jsval \<Rightarrow> ('s, 's solved) call"
  check :: "jsval \<Rightarrow> jsval \<Rightarrow> ('s, unit) call"

record 's Scenario =
  name :: string
  scenario_file :: "string option"
  requirements :: jsval
  initializer :: "('s, jsval) call"
  forker :: "jsval \<Rightarrow> ('s, jsval) call"
  transformer :: "jsval \<Rightarrow> ('s, jsval) call"
  property :: "jsval \<Rightarrow> jsval \<Rightarrow> ('s, receipt option) call"
  constraints :: "'s Constraint list option"

text \<open>The fields \<^verbatim>\<open>base\<close>, \<^verbatim>\<open>file\<close> and \<^verbatim>\<open>scenario\<close> of the result carry the prefix
  \<open>result_\<close>; \<open>diff\<close> is \<^verbatim>\<open>null\<close> or the pair of \<^verbatim>\<open>actual\<close> and \<^verbatim>\<open>expected\<close>.\<close>

record Result =
  result_base :: string
  result_file :: string
  result_scenario :: string
  gasUsed :: jsnum
  numSolutionSets :: jsval
  elapsed :: int
  error :: jsval
  trace :: jsval
  diff :: "(jsval \<times> jsval) option"

section \<open>The runner's monad\<close>

text \<open>
  The state threaded through \<^verbatim>\<open>run\<close> is the store together with the one field the
  \<^verbatim>\<open>Runner\<close> object owns, \<^verbatim>\<open>worldSnapshot\<close> (\<open>None\<close> is \<^verbatim>\<open>undefined\<close>). Each step also
  yields the list of the calls it made to collaborators, in order, each with the error it
  threw if any; the call of the property is recorded with what it returned.
\<close>

datatype kind =
    Snapshot
  | RevertAndSnapshot string
  | Initializer
  | Solve
  | Forker
  | Solution
  | Check
  | Transformer
  | ToNumber

datatype event =
    Call kind "jsval error option"
  | PropertyCall "jsval error + receipt option"

record 's state =
  world_state :: 's
  worldSnapshot :: "string option"

type_synonym ('s, 'a) async = "'s state \<Rightarrow> (jsval error + 'a) \<times> 's state \<times> event list"

definition resolve :: "'a \<Rightarrow> ('s, 'a) async" where
  "resolve a = (\<lambda>st. (Inr a, st, []))"

definition throw :: "jsval error \<Rightarrow> ('s, 'a) async" where
  "throw e = (\<lambda>st. (Inl e, st, []))"

text \<open>\<open>await p k\<close>: run \<open>p\<close>; a rejection propagates, a value is handed to \<open>k\<close>.\<close>

definition await :: "('s, 'a) async \<Rightarrow> ('a \<Rightarrow> ('s, 'b) async) \<Rightarrow> ('s, 'b) async" where
  "await p k = (\<lambda>st. case p st of
       (Inl e, st1, l1) \<Rightarrow> (Inl e, st1, l1)
     | (Inr a, st1, l1) \<Rightarrow> (case k a st1 of (r, st2, l2) \<Rightarrow> (r, st2, l1 @ l2)))"

text \<open>\<open>settle p k\<close>: run \<open>p\<close> and hand its outcome, value or rejection, to \<open>k\<close>
  (the shape of \<^verbatim>\<open>try { p } catch (e) { k (Inl e) }\<close>).\<close>

definition settle ::
  "('s, 'a) async \<Rightarrow> (jsval error + 'a \<Rightarrow> ('s, 'b) async) \<Rightarrow> ('s, 'b) async" where
  "settle p k = (\<lambda>st. case p st of
       (r, st1, l1) \<Rightarrow> (case k r st1 of (r', st2, l2) \<Rightarrow> (r', st2, l1 @ l2)))"

definition outcome :: "jsval error + 'a \<Rightarrow> jsval error option" where
  "outcome r = (case r of Inl e \<Rightarrow> Some e | Inr a \<Rightarrow> None)"

definition invoke :: "kind \<Rightarrow> ('s, 'a) call \<Rightarrow> ('s, 'a) async" where
  "invoke k f = (\<lambda>st. case f (world_state st) of
       (r, w) \<Rightarrow> (r, st\<lparr>world_state := w\<rparr>, [Call k (outcome r)]))"

definition invoke_property :: "('s, receipt option) call \<Rightarrow> ('s, receipt option) async" where
  "invoke_property f = (\<lambda>st. case f (world_state st) of
       (r, w) \<Rightarrow> (r, st\<lparr>world_state := w\<rparr>, [PropertyCall r]))"

text \<open>\<^verbatim>\<open>Date.now()\<close> reads a clock that is part of the store.\<close>

definition now :: "('s \<Rightarrow> int) \<Rightarrow> ('s, int) async" where
  "now Date_now = (\<lambda>st. (Inr (Date_now (world_state st)), st, []))"

definition assign_worldSnapshot :: "string \<Rightarrow> ('s, unit) async" where
  "assign_worldSnapshot h = (\<lambda>st. (Inr (), st\<lparr>worldSnapshot := Some h\<rparr>, []))"

section \<open>Runner.ts\<close>

subsection \<open>combos\<close>

text \<open>
  \<^verbatim>\<open>
  function* combos<T>(choices: T[][]): Generator<T[]> {
    if (choices.length == 0) {
      yield [];
    } else {
      for (const option of choices[0])
        for (const combo of combos(choices.slice(1))) yield [option, ...combo];
    }
  }
  \<close>
  The generator has no effects, so the sequence it yields is the list of its values.
\<close>

fun combos :: "'a list list \<Rightarrow> 'a list list" where
  "combos [] = [[]]"
| "combos (choices0 # rest) =
     concat (map (\<lambda>option. map (\<lambda>combo. option # combo) (combos rest)) choices0)"

subsection \<open>identity, asList, mapSolution\<close>

definition identity :: "'s solution" where
  "identity = (\<lambda>ctx w. (Inr ctx, w))"

text \<open>\<^verbatim>\<open>[].concat(v)\<close> spreads an array and wraps anything else.\<close>

fun asList :: "'s solutions \<Rightarrow> 's solution list" where
  "asList (Many ss) = ss"
| "asList (One s) = [s]"

fun mapSolution :: "'s solved \<Rightarrow> 's solution list" where
  "mapSolution None = [identity]"
| "mapSolution (Some s) = asList s"

subsection \<open>generateResult\<close>

text \<open>
  The parameter \<^verbatim>\<open>numSolutionSets: number\<close> receives a count on one call site and the
  caught error (of type \<^verbatim>\<open>any\<close>) on the other. In \<^verbatim>\<open>totalGas / numSolutionSets\<close> an error
  object is converted to a number through the string of its name and message, which gives
  \<open>NaN\<close>. The parameter \<^verbatim>\<open>err\<close> is \<^verbatim>\<open>undefined\<close> when the argument is omitted;
  \<^verbatim>\<open>Date.now()\<close> is read by the caller and passed in.
\<close>

datatype number_arg = Count nat | Caught "jsval error"

fun to_number :: "number_arg \<Rightarrow> jsnum" where
  "to_number (Count n) = Finite (of_nat n)"
| "to_number (Caught e) = NaN"

fun as_jsval :: "number_arg \<Rightarrow> jsval" where
  "as_jsval (Count n) = JNumber (Finite (of_nat n))"
| "as_jsval (Caught e) = JError e"

text \<open>\<^verbatim>\<open>err.stack\<close> for a truthy \<^verbatim>\<open>err\<close>; values other than errors have no such property.\<close>

fun get_stack :: "jsval \<Rightarrow> jsval" where
  "get_stack (JError e) = JString (stack e)"
| "get_stack v = JUndefined"

definition generateResult ::
  "ForkSpec \<Rightarrow> 's Scenario \<Rightarrow> int \<Rightarrow> int \<Rightarrow> int \<Rightarrow> number_arg \<Rightarrow> jsval \<Rightarrow> Result" where
  "generateResult base_spec scn startTime date_now totalGas num err =
     (let diff0 = (case err of
                     JError (AssertionError m st act expd) \<Rightarrow>
                       if strict_neq act expd then Some (act, expd) else None
                   | _ \<Rightarrow> None)
      in \<lparr> result_base = fork_name base_spec,
           result_file = (case scenario_file scn of
                            Some f \<Rightarrow> if f \<noteq> [] then f else name scn
                          | None \<Rightarrow> name scn),
           result_scenario = name scn,
           gasUsed = js_div (Finite (of_int totalGas)) (to_number num),
           numSolutionSets = as_jsval num,
           elapsed = date_now - startTime,
           error = (if truthy err then err else JNull),
           trace = (if truthy err then get_stack err else JNull),
           diff = diff0 \<rparr>)"

subsection \<open>Runner.run\<close>

text \<open>
  \<^verbatim>\<open>Promise.all(constraints.map((c) => c.solve(...).then(mapSolution)))\<close>: every
  \<^verbatim>\<open>solve\<close> is started, in the order of the constraints, and the result is the list of the
  normalised solutions, or a rejection if any of them rejects. The interleaving of the
  pending promises is not modelled: the calls run one after the other, and the rejection
  reported is the one of the first rejecting constraint.
\<close>

primrec solve_all ::
  "'s Constraint list \<Rightarrow> jsval \<Rightarrow> jsval \<Rightarrow> ('s, 's solution list list) async" where
  "solve_all [] req context = resolve []"
| "solve_all (c # cs) req context =
     settle (invoke Solve (solve c req context)) (\<lambda>r.
     settle (solve_all cs req context) (\<lambda>rs.
       case r of
         Inl e \<Rightarrow> throw e
       | Inr s \<Rightarrow> (case rs of
                    Inl e \<Rightarrow> throw e
                  | Inr ss \<Rightarrow> resolve (mapSolution s # ss))))"

text \<open>\<^verbatim>\<open>for (const solution of combo) ctx = (await solution(ctx, world)) || ctx;\<close>\<close>

primrec apply_solutions :: "'s solution list \<Rightarrow> jsval \<Rightarrow> ('s, jsval) async" where
  "apply_solutions [] ctx = resolve ctx"
| "apply_solutions (sol # sols) ctx =
     await (invoke Solution (sol ctx)) (\<lambda>v.
       apply_solutions sols (if truthy v then v else ctx))"

text \<open>\<^verbatim>\<open>for (const constraint of constraints) await constraint.check(requirements, ctx, world);\<close>\<close>

primrec check_all :: "'s Constraint list \<Rightarrow> jsval \<Rightarrow> jsval \<Rightarrow> ('s, unit) async" where
  "check_all [] req ctx = resolve ()"
| "check_all (c # cs) req ctx =
     await (invoke Check (check c req ctx)) (\<lambda>u. check_all cs req ctx)"

text \<open>
  The body of the \<^verbatim>\<open>try\<close> block, from the values of \<^verbatim>\<open>cumulativeGas\<close> and
  \<^verbatim>\<open>numSolutionSets\<close> on entry to their values on normal exit. The local variable
  \<^verbatim>\<open>numSolutionSets\<close> is called \<open>count\<close> here, the name being that of the result's field.
\<close>

definition try_block ::
  "'s Scenario \<Rightarrow> jsval \<Rightarrow> int \<Rightarrow> nat \<Rightarrow> ('s, int \<times> nat) async" where
  "try_block scn ctx cumulativeGas0 count0 =
     await (invoke Transformer (transformer scn ctx)) (\<lambda>v.
     await (invoke_property (property scn v ctx)) (\<lambda>txnReceipt.
       case txnReceipt of
         Some rc \<Rightarrow>
           await (invoke ToNumber (\<lambda>w. (toNumber (cumulativeGasUsed rc), w))) (\<lambda>g.
             resolve (cumulativeGas0 + g, count0 + 1))
       | None \<Rightarrow> resolve (cumulativeGas0, count0 + 1)))"

text \<open>
  One iteration of the loop over the combos ends by going on to the next combo with the
  new values of \<^verbatim>\<open>cumulativeGas\<close>, \<^verbatim>\<open>numSolutionSets\<close> and \<^verbatim>\<open>contextSnapshot\<close>, by the
  \<^verbatim>\<open>return\<close> of the \<^verbatim>\<open>catch\<close> block, or by a throw.
\<close>

datatype step = Next int nat string | Return Result

text \<open>
  The \<^verbatim>\<open>try\<close> statement. The \<^verbatim>\<open>catch\<close> block evaluates
  \<^verbatim>\<open>this.generateResult(base, scenario, startTime, numSolutionSets, e)\<close>, five arguments
  for six parameters, before the \<^verbatim>\<open>finally\<close> block runs; the \<^verbatim>\<open>finally\<close> block runs
  after the \<^verbatim>\<open>try\<close> block and after the \<^verbatim>\<open>catch\<close> block, and a throw of its own replaces
  the pending \<^verbatim>\<open>return\<close>.
\<close>

definition try_catch_finally ::
  "('s \<Rightarrow> int) \<Rightarrow> 's Config \<Rightarrow> 's Scenario \<Rightarrow> int \<Rightarrow> jsval \<Rightarrow>
   int \<Rightarrow> nat \<Rightarrow> string \<Rightarrow> ('s, step) async" where
  "try_catch_finally Date_now cfg scn startTime ctx cumulativeGas0 count0 contextSnapshot =
     settle (try_block scn ctx cumulativeGas0 count0) (\<lambda>r.
       case r of
         Inr (cumulativeGas1, count1) \<Rightarrow>
           await (invoke (RevertAndSnapshot contextSnapshot)
                    (revertAndSnapshot (world cfg) contextSnapshot)) (\<lambda>contextSnapshot1.
             resolve (Next cumulativeGas1 count1 contextSnapshot1))
       | Inl e \<Rightarrow>
           await (now Date_now) (\<lambda>t.
           await (invoke (RevertAndSnapshot contextSnapshot)
                    (revertAndSnapshot (world cfg) contextSnapshot)) (\<lambda>contextSnapshot1.
             resolve (Return
               (generateResult (base cfg) scn startTime t (int count0) (Caught e)
                  JUndefined)))))"

text \<open>The body of the loop: fork the context, apply the solutions of the combo, check
  every constraint, then run the property.\<close>

definition combo_body ::
  "('s \<Rightarrow> int) \<Rightarrow> 's Config \<Rightarrow> 's Scenario \<Rightarrow> int \<Rightarrow> jsval \<Rightarrow> 's solution list \<Rightarrow>
   int \<Rightarrow> nat \<Rightarrow> string \<Rightarrow> ('s, step) async" where
  "combo_body Date_now cfg scn startTime context combo cumulativeGas0 count0 contextSnapshot =
     await (invoke Forker (forker scn context)) (\<lambda>ctx0.
     await (apply_solutions combo ctx0) (\<lambda>ctx.
     await (check_all (case constraints scn of None \<Rightarrow> [] | Some cs \<Rightarrow> cs)
              (requirements scn) ctx) (\<lambda>u.
       try_catch_finally Date_now cfg scn startTime ctx cumulativeGas0 count0
         contextSnapshot)))"

datatype loop_exit = Completed int nat | Returned Result

primrec combo_loop ::
  "('s \<Rightarrow> int) \<Rightarrow> 's Config \<Rightarrow> 's Scenario \<Rightarrow> int \<Rightarrow> jsval \<Rightarrow> 's solution list list \<Rightarrow>
   int \<Rightarrow> nat \<Rightarrow> string \<Rightarrow> ('s, loop_exit) async" where
  "combo_loop Date_now cfg scn startTime context [] cumulativeGas0 count0 contextSnapshot =
     resolve (Completed cumulativeGas0 count0)"
| "combo_loop Date_now cfg scn startTime context (combo # rest) cumulativeGas0 count0
     contextSnapshot =
     await (combo_body Date_now cfg scn startTime context combo cumulativeGas0 count0
              contextSnapshot) (\<lambda>s.
       case s of
         Next cumulativeGas1 count1 contextSnapshot1 \<Rightarrow>
           combo_loop Date_now cfg scn startTime context rest cumulativeGas1 count1
             contextSnapshot1
       | Return res \<Rightarrow> resolve (Returned res))"

text \<open>The world reset at the start of \<^verbatim>\<open>run\<close>; \<^verbatim>\<open>if (this.worldSnapshot)\<close> is false for
  \<^verbatim>\<open>undefined\<close> and for the empty string.\<close>

definition reset_world :: "'s World \<Rightarrow> ('s, unit) async" where
  "reset_world w = (\<lambda>st.
     (case worldSnapshot st of
        Some h \<Rightarrow>
          if h \<noteq> [] then
            await (invoke (RevertAndSnapshot h) (revertAndSnapshot w h)) assign_worldSnapshot
          else await (invoke Snapshot (snapshot w)) assign_worldSnapshot
      | None \<Rightarrow> await (invoke Snapshot (snapshot w)) assign_worldSnapshot) st)"

definition run :: "('s \<Rightarrow> int) \<Rightarrow> 's Config \<Rightarrow> 's Scenario \<Rightarrow> ('s, Result) async" where
  "run Date_now cfg scn =
     await (now Date_now) (\<lambda>startTime.
     await (reset_world (world cfg)) (\<lambda>u.
     await (invoke Initializer (initializer scn)) (\<lambda>context.
     await (invoke Snapshot (snapshot (world cfg))) (\<lambda>contextSnapshot.
     await (solve_all (case constraints scn of None \<Rightarrow> [] | Some cs \<Rightarrow> cs)
              (requirements scn) context) (\<lambda>solutionChoices.
     await (combo_loop Date_now cfg scn startTime context
              (combos ([[identity]] @ solutionChoices)) 0 0 contextSnapshot) (\<lambda>ex.
       case ex of
         Returned res \<Rightarrow> resolve res
       | Completed cumulativeGas1 count1 \<Rightarrow>
           await (now Date_now) (\<lambda>t.
             resolve (generateResult (base cfg) scn startTime t cumulativeGas1
                        (Count count1) JUndefined))))))))"

section \<open>Notions used to state the properties\<close>

subsection \<open>The order of the combos\<close>

text \<open>
  The positions that can be chosen in each group, and the combination that a vector of
  positions selects.
\<close>

definition positions :: "'a list list \<Rightarrow> nat list list" where
  "positions choices = map (\<lambda>c. [0..<length c]) choices"

definition pick :: "'a list list \<Rightarrow> nat list \<Rightarrow> 'a list" where
  "pick choices idx = map (\<lambda>(c, i). c ! i) (zip choices idx)"

text \<open>Strictly smaller in the lexicographic order, for position vectors of one length.\<close>

fun lex_less :: "nat list \<Rightarrow> nat list \<Rightarrow> bool" where
  "lex_less (i # is) (j # js) = (i < j \<or> (i = j \<and> lex_less is js))"
| "lex_less is js = False"

subsection \<open>The calls of a run\<close>

text \<open>A call that threw.\<close>

fun threw :: "event \<Rightarrow> bool" where
  "threw (Call k (Some e)) = True"
| "threw (Call k None) = False"
| "threw (PropertyCall (Inl e)) = True"
| "threw (PropertyCall (Inr r)) = False"

fun is_property :: "event \<Rightarrow> bool" where
  "is_property (PropertyCall r) = True"
| "is_property (Call k e) = False"

text \<open>
  The calls made on behalf of one combo before the revert: forking the context, applying
  the solutions, checking the constraints, and the calls of the \<^verbatim>\<open>try\<close> block.
\<close>

fun combo_kind :: "kind \<Rightarrow> bool" where
  "combo_kind Forker = True"
| "combo_kind Solution = True"
| "combo_kind Check = True"
| "combo_kind Transformer = True"
| "combo_kind ToNumber = True"
| "combo_kind k = False"

fun combo_event :: "event \<Rightarrow> bool" where
  "combo_event (PropertyCall r) = True"
| "combo_event (Call k e) = combo_kind k"

text \<open>
  The calls that \<^verbatim>\<open>run\<close> makes outside the \<^verbatim>\<open>try\<close> block. Inside it are the calls of
  the transformer, of the property and of \<^verbatim>\<open>toNumber\<close>.
\<close>

fun outside_try :: "kind \<Rightarrow> bool" where
  "outside_try Transformer = False"
| "outside_try ToNumber = False"
| "outside_try k = True"

text \<open>The gas that a call of the property reported: that of its receipt, if it returned one.\<close>

fun gas_of :: "event \<Rightarrow> int" where
  "gas_of (PropertyCall (Inr (Some rc))) =
     (case toNumber (cumulativeGasUsed rc) of Inr g \<Rightarrow> g | Inl e \<Rightarrow> 0)"
| "gas_of ev = 0"

definition gas_sum :: "event list \<Rightarrow> int" where
  "gas_sum l = sum_list (map gas_of l)"

definition property_calls :: "event list \<Rightarrow> nat" where
  "property_calls l = length (filter is_property l)"

definition clean :: "event list \<Rightarrow> bool" where
  "clean l = list_all (\<lambda>ev. \<not> threw ev) l"

text \<open>After a call that threw, no further call is made on behalf of a combo.\<close>

primrec quiet :: "event list \<Rightarrow> bool" where
  "quiet [] = True"
| "quiet (ev # l) = ((threw ev \<longrightarrow> list_all (\<lambda>ev'. \<not> combo_event ev') l) \<and> quiet l)"

subsection \<open>A world and scenarios to run\<close>

text \<open>
  A world whose state is a counter and the list of the values saved by its snapshots; the
  handle of the \<open>i\<close>-th snapshot is a string of \<open>i\<close> characters.
\<close>

type_synonym counter = "nat \<times> nat list"

definition handle :: "nat \<Rightarrow> string" where
  "handle i = replicate i (CHR ''#'')"

definition stub_world :: "counter World" where
  "stub_world = \<lparr>
     snapshot = (\<lambda>(v, saved). (Inr (handle (Suc (length saved))), (v, saved @ [v]))),
     revertAndSnapshot = (\<lambda>h (v, saved).
       if 0 < length h \<and> length h \<le> length saved
       then (Inr (handle (Suc (length saved))),
             (saved ! (length h - 1), saved @ [saved ! (length h - 1)]))
       else (Inl (Error ''unknown snapshot'' ''at revert''), (v, saved))) \<rparr>"

definition stub_config :: "counter Config" where
  "stub_config = \<lparr> base = \<lparr> fork_name = ''mainnet'' \<rparr>, world = stub_world \<rparr>"

definition stub_scenario ::
  "(jsval \<Rightarrow> jsval \<Rightarrow> (counter, receipt option) call) \<Rightarrow> counter Constraint list option \<Rightarrow>
   counter Scenario" where
  "stub_scenario prop cs = \<lparr>
     name = ''scenario'', scenario_file = None, requirements = JNull,
     initializer = (\<lambda>w. (Inr (JObject 0), w)),
     forker = (\<lambda>ctx w. (Inr ctx, w)),
     transformer = (\<lambda>ctx w. (Inr ctx, w)),
     property = prop,
     constraints = cs \<rparr>"

definition start :: "counter state" where
  "start = \<lparr> world_state = (0, []), worldSnapshot = None \<rparr>"

definition clock :: "counter \<Rightarrow> int" where
  "clock w = int (length (snd w))"

text \<open>A property that passes and returns no receipt.\<close>

definition passing :: "jsval \<Rightarrow> jsval \<Rightarrow> (counter, receipt option) call" where
  "passing = (\<lambda>v ctx w. (Inr None, w))"

text \<open>A property that throws the given error.\<close>

definition failing :: "jsval error \<Rightarrow> jsval \<Rightarrow> jsval \<Rightarrow> (counter, receipt option) call" where
  "failing e = (\<lambda>v ctx w. (Inl e, w))"


text \<open>A solution that replaces the context by a number.\<close>

definition put :: "rat \<Rightarrow> counter solution" where
  "put n = (\<lambda>ctx w. (Inr (JNumber (Finite n)), w))"

text \<open>A constraint that solves to the given value and whose check passes.\<close>

definition solving :: "counter solved \<Rightarrow> counter Constraint" where
  "solving s = \<lparr> solve = (\<lambda>req ctx w. (Inr s, w)), check = (\<lambda>req ctx w. (Inr (), w)) \<rparr>"


text \<open>
  A property that uses the context, a number, as the gas of its receipt, and throws on
  the context \<open>2\<close>.
\<close>

definition metered :: "jsval \<Rightarrow> jsval \<Rightarrow> (counter, receipt option) call" where
  "metered = (\<lambda>v ctx w.
     case ctx of
       JNumber (Finite n) \<Rightarrow>
         if n = 2 then (Inl (Error ''boom'' ''at property''), w)
         else (Inr (Some \<lparr> cumulativeGasUsed = BigNumber (Inr (floor n)) \<rparr>), w)
     | _ \<Rightarrow> (Inr None, w))"

subsection \<open>What holds of the result and the calls of a computation\<close>

text \<open>\<open>post Q p\<close>: from every state, the result and the calls of \<open>p\<close> satisfy \<open>Q\<close>.\<close>

definition post :: "(jsval error + 'a \<Rightarrow> event list \<Rightarrow> bool) \<Rightarrow> ('s, 'a) async \<Rightarrow> bool" where
  "post Q p = (\<forall>st. case p st of (r, st', l) \<Rightarrow> Q r l)"

text \<open>
  A computation outside the \<^verbatim>\<open>try\<close> block: it does not call the property; it stops at the
  first call that throws, or goes on only with calls to \<^verbatim>\<open>solve\<close>; its rejection is the
  error of one of its calls.
\<close>

definition simple :: "jsval error + 'a \<Rightarrow> event list \<Rightarrow> bool" where
  "simple r l =
     (list_all (\<lambda>ev. \<not> is_property ev) l \<and> quiet l \<and>
      (case r of
         Inl e \<Rightarrow> (\<exists>k. outside_try k \<and> Call k (Some e) \<in> set l)
       | Inr a \<Rightarrow> clean l))"

text \<open>The calls of \<^verbatim>\<open>Promise.all\<close> over the constraints.\<close>

definition solved_post :: "jsval error + 'a \<Rightarrow> event list \<Rightarrow> bool" where
  "solved_post r l =
     ((\<forall>ev \<in> set l. \<exists>e. ev = Call Solve e) \<and>
      (case r of Inl e \<Rightarrow> Call Solve (Some e) \<in> set l | Inr a \<Rightarrow> clean l))"

text \<open>The error was thrown by a call of the \<^verbatim>\<open>try\<close> block.\<close>

definition thrown_in_try :: "jsval error \<Rightarrow> event list \<Rightarrow> bool" where
  "thrown_in_try e l =
     (PropertyCall (Inl e) \<in> set l \<or> Call Transformer (Some e) \<in> set l \<or>
      Call ToNumber (Some e) \<in> set l)"

text \<open>
  The result that the \<^verbatim>\<open>catch\<close> block builds: the caught error sits in the field
  \<^verbatim>\<open>numSolutionSets\<close>, and the fields \<^verbatim>\<open>error\<close>, \<^verbatim>\<open>trace\<close> and \<^verbatim>\<open>diff\<close> are empty.
\<close>

definition caught_result :: "event list \<Rightarrow> Result \<Rightarrow> bool" where
  "caught_result l res =
     (\<exists>e. thrown_in_try e l \<and> numSolutionSets res = JError e \<and> gasUsed res = NaN \<and>
          error res = JNull \<and> trace res = JNull \<and> diff res = None)"

text \<open>The \<^verbatim>\<open>try\<close> block, entered with the given gas total and count.\<close>

definition tried :: "int \<Rightarrow> nat \<Rightarrow> jsval error + int \<times> nat \<Rightarrow> event list \<Rightarrow> bool" where
  "tried g0 n0 r l =
     (quiet l \<and>
      (case r of
         Inl e \<Rightarrow> \<not> clean l \<and> thrown_in_try e l
       | Inr (g, n) \<Rightarrow> clean l \<and> g = g0 + gas_sum l \<and> n = Suc n0 \<and> property_calls l = 1))"

text \<open>One iteration of the loop, entered with the given gas total and count.\<close>

definition stepped :: "int \<Rightarrow> nat \<Rightarrow> jsval error + step \<Rightarrow> event list \<Rightarrow> bool" where
  "stepped g0 n0 r l =
     (quiet l \<and>
      (case r of
         Inl e \<Rightarrow> (\<exists>k. outside_try k \<and> Call k (Some e) \<in> set l)
       | Inr (Next g n h) \<Rightarrow>
           clean l \<and> g = g0 + gas_sum l \<and> n = Suc n0 \<and> property_calls l = 1
       | Inr (Return res) \<Rightarrow> \<not> clean l \<and> caught_result l res))"

text \<open>The loop over the given number of combos.\<close>

definition looped :: "int \<Rightarrow> nat \<Rightarrow> nat \<Rightarrow> jsval error + loop_exit \<Rightarrow> event list \<Rightarrow> bool" where
  "looped g0 n0 len r l =
     (quiet l \<and>
      (case r of
         Inl e \<Rightarrow> (\<exists>k. outside_try k \<and> Call k (Some e) \<in> set l)
       | Inr (Completed g n) \<Rightarrow>
           clean l \<and> g = g0 + gas_sum l \<and> n = n0 + len \<and> property_calls l = len
       | Inr (Returned res) \<Rightarrow> \<not> clean l \<and> caught_result l res))"

text \<open>No constraint of the scenario ever solves to an empty array.\<close>

definition never_empty :: "'s Scenario \<Rightarrow> bool" where
  "never_empty scn =
     (\<forall>c \<in> set (case constraints scn of None \<Rightarrow> [] | Some cs \<Rightarrow> cs).
        \<forall>req ctx w. fst (solve c req ctx w) \<noteq> Inr (Some (Many [])))"

text \<open>
  A whole run: if no call threw, the result is the one built from the gas that the
  property calls reported and from their number; otherwise it is the result of the
  \<^verbatim>\<open>catch\<close> block.
\<close>

definition run_post :: "'s Config \<Rightarrow> 's Scenario \<Rightarrow> jsval error + Result \<Rightarrow> event list \<Rightarrow> bool" where
  "run_post cfg scn r l =
     (quiet l \<and>
      (case r of
         Inl e \<Rightarrow> (\<exists>k. outside_try k \<and> Call k (Some e) \<in> set l)
       | Inr res \<Rightarrow>
           (clean l \<longrightarrow>
             (\<exists>t0 t1. res = generateResult (base cfg) scn t0 t1 (gas_sum l)
                               (Count (property_calls l)) JUndefined) \<and>
             (never_empty scn \<longrightarrow> 1 \<le> property_calls l)) \<and>
           (\<not> clean l \<longrightarrow> caught_result l res)))"

section \<open>The combo generator\<close>

lemma sorted_wrt_concat_map:
  assumes "sorted_wrt Q xs"
    and "\<And>x. x \<in> set xs \<Longrightarrow> sorted_wrt P (f x)"
    and "\<And>x y a b. Q x y \<Longrightarrow> a \<in> set (f x) \<Longrightarrow> b \<in> set (f y) \<Longrightarrow> P a b"
  shows "sorted_wrt P (concat (map f xs))"
  using assms by (induction xs) (auto simp: sorted_wrt_append)


lemma combos_set:
  "set (combos choices) =
     {c. length c = length choices \<and> (\<forall>k < length choices. c ! k \<in> set (choices ! k))}"
proof (induction choices)
  case Nil
  then show ?case by auto
next
  case (Cons c0 rest)
  show ?case
  proof (rule set_eqI)
    fix c
    show "c \<in> set (combos (c0 # rest)) \<longleftrightarrow>
          c \<in> {c. length c = length (c0 # rest) \<and> (\<forall>k < length (c0 # rest). c ! k \<in> set ((c0 # rest) ! k))}"
    proof (cases c)
      case Nil
      then show ?thesis by auto
    next
      case (Cons x xs)
      have "(\<forall>k < Suc (length rest). (x # xs) ! k \<in> set ((c0 # rest) ! k)) \<longleftrightarrow>
            x \<in> set c0 \<and> (\<forall>k < length rest. xs ! k \<in> set (rest ! k))"
        by (auto simp: nth_Cons split: nat.splits)
      with Cons Cons.IH show ?thesis by auto
    qed
  qed
qed

lemma combos_pick: "combos choices = map (pick choices) (combos (positions choices))"
proof (induction choices)
  case Nil
  then show ?case by (simp add: positions_def pick_def)
next
  case (Cons c0 rest)
  have "combos (c0 # rest) = concat (map (\<lambda>option. map (\<lambda>combo. option # combo) (map (pick rest) (combos (positions rest)))) c0)"
    using Cons.IH by simp
  also have "\<dots> = concat (map (\<lambda>i. map (\<lambda>combo. c0 ! i # combo) (map (pick rest) (combos (positions rest)))) [0..<length c0])"
    by (rule arg_cong[where f = concat], rule nth_equalityI) simp_all
  also have "\<dots> = map (pick (c0 # rest)) (combos (positions (c0 # rest)))"
    by (simp add: positions_def pick_def map_concat o_def)
  finally show ?case .
qed

lemma combos_sorted: "sorted_wrt lex_less (combos (positions choices))"
proof (induction choices)
  case Nil
  then show ?case by (simp add: positions_def)
next
  case (Cons c0 rest)
  have IH: "sorted_wrt lex_less (combos (positions rest))" by (rule Cons.IH)
  have "sorted_wrt lex_less (concat (map (\<lambda>i. map (\<lambda>combo. i # combo) (combos (positions rest))) [0..<length c0]))"
  proof (rule sorted_wrt_concat_map[where Q = "(<)"])
    show "sorted_wrt (<) [0..<length c0]" by simp
  next
    fix i
    show "sorted_wrt lex_less (map ((#) i) (combos (positions rest)))"
      using IH by (simp add: sorted_wrt_map)
  next
    fix i j :: nat and a b
    assume "i < j" "a \<in> set (map ((#) i) (combos (positions rest)))"
      "b \<in> set (map ((#) j) (combos (positions rest)))"
    then show "lex_less a b" by auto
  qed
  then show ?case by (simp add: positions_def)
qed

text \<open>
  C6. The generator yields the combinations in head-list-major order: the combos are the
  selections of the position vectors, every position vector (one position per group, in
  range) occurs, and the vectors occur in strictly increasing lexicographic order. For the
  groups \<open>[[A], [X, Y]]\<close> it yields \<open>[A, X]\<close> then \<open>[A, Y]\<close>, and for no group at all it
  yields the empty combination alone.
\<close>

theorem combos_order:
  "combos ([] :: 'a list list) = [[]]
   \<and> combos [[A], [X, Y]] = [[A, X], [A, Y]]
   \<and> combos choices = map (pick choices) (combos (positions choices))
   \<and> set (combos (positions choices)) =
       {idx. length idx = length choices \<and> (\<forall>k < length choices. idx ! k < length (choices ! k))}
   \<and> sorted_wrt lex_less (combos (positions choices))"
proof -
  have "set (combos (positions choices)) =
       {idx. length idx = length choices \<and> (\<forall>k < length choices. idx ! k < length (choices ! k))}"
    unfolding combos_set by (auto simp: positions_def)
  then show ?thesis
    using combos_pick[of choices] combos_sorted[of choices] by simp
qed

theorem combos_order_witness:
  "combos [[CHR ''a'', CHR ''b''], [CHR ''x'', CHR ''y'']] =
     [''ax'', ''ay'', ''bx'', ''by'']
   \<and> combos (positions [''ab'', ''xy'']) = [[0, 0], [0, 1], [1, 0], [1, 1]]
   \<and> sorted_wrt lex_less (combos (positions [''ab'', ''xy'']))
   \<and> [1, 0] \<in> {idx. length idx = length [''ab'', ''xy''] \<and> (\<forall>k < length [''ab'', ''xy'']. idx ! k < length ([''ab'', ''xy''] ! k))}"
  using combos_order[of "CHR ''a''" "CHR ''x''" "CHR ''y''" "[''ab'', ''xy'']"]
  by (simp add: positions_def pick_def upt_rec less_Suc_eq)

section \<open>What a run calls, and when\<close>

subsection \<open>Rules for the monad\<close>

lemma postI: "(\<And>st r st' l. p st = (r, st', l) \<Longrightarrow> Q r l) \<Longrightarrow> post Q p"
  by (auto simp: post_def)

lemma postD: "post Q p \<Longrightarrow> p st = (r, st', l) \<Longrightarrow> Q r l"
  by (auto simp: post_def split: prod.splits)

lemma post_weaken: "post P p \<Longrightarrow> (\<And>r l. P r l \<Longrightarrow> Q r l) \<Longrightarrow> post Q p"
  by (auto simp: post_def split: prod.splits)

lemma post_conj: "post P p \<Longrightarrow> post Q p \<Longrightarrow> post (\<lambda>r l. P r l \<and> Q r l) p"
  by (auto simp: post_def split: prod.splits)

lemma post_resolve: "Q (Inr a) [] \<Longrightarrow> post Q (resolve a)"
  by (simp add: post_def resolve_def)

lemma post_throw: "Q (Inl e) [] \<Longrightarrow> post Q (throw e)"
  by (simp add: post_def throw_def)

lemma post_now: "(\<And>t. Q (Inr t) []) \<Longrightarrow> post Q (now D)"
  by (simp add: post_def now_def)

lemma post_assign: "Q (Inr ()) [] \<Longrightarrow> post Q (assign_worldSnapshot h)"
  by (simp add: post_def assign_worldSnapshot_def)

lemma post_invoke: "(\<And>r. Q r [Call k (outcome r)]) \<Longrightarrow> post Q (invoke k f)"
  by (simp add: post_def invoke_def split: prod.splits)

lemma post_invoke_property: "(\<And>r. Q r [PropertyCall r]) \<Longrightarrow> post Q (invoke_property f)"
  by (simp add: post_def invoke_property_def split: prod.splits)

lemma post_await:
  assumes "post P p"
    and "\<And>e l1. P (Inl e) l1 \<Longrightarrow> Q (Inl e) l1"
    and "\<And>a l1. P (Inr a) l1 \<Longrightarrow> post (\<lambda>r l2. Q r (l1 @ l2)) (k a)"
  shows "post Q (await p k)"
proof (rule postI)
  fix st r st' l
  assume run: "await p k st = (r, st', l)"
  obtain r1 st1 l1 where p: "p st = (r1, st1, l1)" by (cases "p st") auto
  have P: "P r1 l1" using assms(1) p by (rule postD)
  show "Q r l"
  proof (cases r1)
    case (Inl e)
    with run p have "r = Inl e" "l = l1" by (auto simp: await_def)
    with P Inl assms(2) show ?thesis by simp
  next
    case (Inr a)
    obtain r2 st2 l2 where k: "k a st1 = (r2, st2, l2)" by (cases "k a st1") auto
    with run p Inr have "r = r2" "l = l1 @ l2" by (auto simp: await_def)
    moreover have "Q r2 (l1 @ l2)" using assms(3)[of a l1] P Inr k by (auto dest: postD)
    ultimately show ?thesis by simp
  qed
qed

lemma post_settle:
  assumes "post P p"
    and "\<And>r1 l1. P r1 l1 \<Longrightarrow> post (\<lambda>r l2. Q r (l1 @ l2)) (k r1)"
  shows "post Q (settle p k)"
proof (rule postI)
  fix st r st' l
  assume run: "settle p k st = (r, st', l)"
  obtain r1 st1 l1 where p: "p st = (r1, st1, l1)" by (cases "p st") auto
  have P: "P r1 l1" using assms(1) p by (rule postD)
  obtain r2 st2 l2 where k: "k r1 st1 = (r2, st2, l2)" by (cases "k r1 st1") auto
  with run p have "r = r2" "l = l1 @ l2" by (auto simp: settle_def)
  moreover have "Q r2 (l1 @ l2)" using assms(2)[of r1 l1] P k by (auto dest: postD)
  ultimately show "Q r l" by simp
qed

subsection \<open>Lists of calls\<close>

lemma clean_Nil [simp]: "clean []" by (simp add: clean_def)
lemma clean_Cons [simp]: "clean (ev # l) \<longleftrightarrow> \<not> threw ev \<and> clean l" by (simp add: clean_def)
lemma clean_append [simp]: "clean (l1 @ l2) \<longleftrightarrow> clean l1 \<and> clean l2" by (simp add: clean_def)

lemma gas_sum_Nil [simp]: "gas_sum [] = 0" by (simp add: gas_sum_def)
lemma gas_sum_Cons [simp]: "gas_sum (ev # l) = gas_of ev + gas_sum l" by (simp add: gas_sum_def)
lemma gas_sum_append [simp]: "gas_sum (l1 @ l2) = gas_sum l1 + gas_sum l2" by (simp add: gas_sum_def)

lemma property_calls_Nil [simp]: "property_calls [] = 0" by (simp add: property_calls_def)
lemma property_calls_Cons [simp]:
  "property_calls (ev # l) = (if is_property ev then Suc (property_calls l) else property_calls l)"
  by (simp add: property_calls_def)
lemma property_calls_append [simp]:
  "property_calls (l1 @ l2) = property_calls l1 + property_calls l2"
  by (simp add: property_calls_def)

lemma no_property_gas: "list_all (\<lambda>ev. \<not> is_property ev) l \<Longrightarrow> gas_sum l = 0 \<and> property_calls l = 0"
proof (induction l)
  case Nil
  then show ?case by simp
next
  case (Cons ev l)
  then show ?case by (cases ev) auto
qed

lemma clean_quiet: "clean l \<Longrightarrow> quiet l"
  by (induction l) auto

lemma quiet_clean_append: "clean l1 \<Longrightarrow> quiet l2 \<Longrightarrow> quiet (l1 @ l2)"
  by (induction l1) auto

lemma quiet_append_calm:
  "quiet l1 \<Longrightarrow> quiet l2 \<Longrightarrow> list_all (\<lambda>ev. \<not> combo_event ev) l2 \<Longrightarrow> quiet (l1 @ l2)"
  by (induction l1) auto

lemma calm_quiet: "list_all (\<lambda>ev. \<not> combo_event ev) l \<Longrightarrow> quiet l"
  by (induction l) auto

lemma quiet_after:
  "quiet (l1 @ ev # l2) \<Longrightarrow> threw ev \<Longrightarrow> ev' \<in> set l2 \<Longrightarrow> \<not> combo_event ev'"
  by (induction l1) (auto simp: list_all_iff)

lemma thrown_not_clean: "Call k (Some e) \<in> set l \<Longrightarrow> \<not> clean l"
  by (auto simp: clean_def list_all_iff intro!: bexI[of _ "Call k (Some e)"])

subsection \<open>Computations outside the try block\<close>

lemma simple_Inl: "simple (Inl e) l \<Longrightarrow> \<not> clean l"
  by (auto simp: simple_def thrown_not_clean)

lemma simple_append: "simple (Inr a) l1 \<Longrightarrow> simple r l2 \<Longrightarrow> simple r (l1 @ l2)"
  by (auto simp: simple_def quiet_clean_append split: sum.splits)

lemma simple_resolve: "post simple (resolve a)"
  by (rule post_resolve) (simp add: simple_def)

lemma simple_now: "post simple (now D)"
  by (rule post_now) (simp add: simple_def)

lemma simple_assign: "post simple (assign_worldSnapshot h)"
  by (rule post_assign) (simp add: simple_def)

lemma simple_invoke:
  assumes "outside_try k"
  shows "post simple (invoke k f)"
  using assms by (intro post_invoke) (auto simp: simple_def outcome_def split: sum.splits)

lemma simple_await:
  assumes "post simple p" and "\<And>a. post simple (k a)"
  shows "post simple (await p k)"
  apply (rule post_await[OF assms(1)])
   apply (simp add: simple_def)
  apply (rule post_weaken[OF assms(2)])
  apply (erule (1) simple_append)
  done

lemma simple_apply_solutions: "post simple (apply_solutions sols ctx)"
  by (induction sols arbitrary: ctx) (auto intro!: simple_resolve simple_await simple_invoke)

lemma simple_check_all: "post simple (check_all cs req ctx)"
  by (induction cs) (auto intro!: simple_resolve simple_await simple_invoke)

lemma simple_reset_world: "post simple (reset_world w)"
proof (rule postI)
  fix st :: "'a state" and r st' l
  assume run: "reset_world w st = (r, st', l)"
  have 1: "post simple (await (invoke Snapshot (snapshot w)) assign_worldSnapshot)"
    by (intro simple_await simple_invoke simple_assign) simp
  have 2: "post simple (await (invoke (RevertAndSnapshot h) (revertAndSnapshot w h)) assign_worldSnapshot)" for h
    by (intro simple_await simple_invoke simple_assign) simp
  show "simple r l"
    using run postD[OF 1, of st r st' l] postD[OF 2, of _ st r st' l]
    by (auto simp: reset_world_def split: option.splits if_splits)
qed

lemma solved_post_solve_all: "post solved_post (solve_all cs req ctx)"
proof (induction cs)
  case Nil
  then show ?case by (auto intro!: post_resolve simp: solved_post_def)
next
  case (Cons c cs)
  show ?case
    unfolding solve_all.simps
  proof (rule post_settle[where P = solved_post])
    show "post solved_post (invoke Solve (solve c req ctx))"
      by (rule post_invoke) (auto simp: solved_post_def outcome_def split: sum.splits)
  next
    fix r1 :: "jsval error + 'a solved" and l1
    assume 1: "solved_post r1 l1"
    show "post (\<lambda>r l2. solved_post r (l1 @ l2))
           (settle (solve_all cs req ctx) (\<lambda>rs. case r1 of Inl e \<Rightarrow> throw e
              | Inr s \<Rightarrow> (case rs of Inl e \<Rightarrow> throw e | Inr ss \<Rightarrow> resolve (mapSolution s # ss))))"
    proof (rule post_settle[OF Cons.IH])
      fix r2 :: "jsval error + 'a solution list list" and l2
      assume 2: "solved_post r2 l2"
      show "post (\<lambda>r l2'. solved_post r (l1 @ l2 @ l2'))
             (case r1 of Inl e \<Rightarrow> throw e
              | Inr s \<Rightarrow> (case r2 of Inl e \<Rightarrow> throw e | Inr ss \<Rightarrow> resolve (mapSolution s # ss)))"
        using 1 2
        by (cases r1; cases r2) (auto intro!: post_throw post_resolve simp: solved_post_def)
    qed
  qed
qed

lemma simple_solve_all: "post simple (solve_all cs req ctx)"
proof (rule post_weaken[OF solved_post_solve_all])
  fix r :: "jsval error + 'a solution list list" and l
  assume a: "solved_post r l"
  then have "list_all (\<lambda>ev. \<not> combo_event ev) l" "list_all (\<lambda>ev. \<not> is_property ev) l"
    by (auto simp: solved_post_def list_all_iff)
  with a show "simple r l"
    by (cases r) (auto simp: simple_def solved_post_def calm_quiet intro!: exI[of _ Solve])
qed

subsection \<open>The loop over the combos\<close>

lemma tried_try_block: "post (tried g0 n0) (try_block scn ctx g0 n0)"
  by (auto simp: post_def try_block_def await_def invoke_def invoke_property_def resolve_def
      tried_def thrown_in_try_def outcome_def split: prod.splits sum.splits option.splits)

lemma quiet_snoc_revert: "quiet l \<Longrightarrow> quiet (l @ [Call (RevertAndSnapshot h) e])"
  by (rule quiet_append_calm) simp_all

lemma stepped_after_try:
  assumes "tried g0 n0 r1 l1"
  shows "post (\<lambda>r l2. stepped g0 n0 r (l1 @ l2))
         (case r1 of
            Inr (g1, n1) \<Rightarrow>
              await (invoke (RevertAndSnapshot h) (revertAndSnapshot (world cfg) h))
                (\<lambda>h1. resolve (Next g1 n1 h1))
          | Inl e \<Rightarrow>
              await (now D) (\<lambda>t.
              await (invoke (RevertAndSnapshot h) (revertAndSnapshot (world cfg) h))
                (\<lambda>h1. resolve (Return
                   (generateResult (base cfg) scn startTime t (int n0) (Caught e) JUndefined)))))"
proof (cases r1)
  case (Inl e)
  with assms have "quiet l1" "\<not> clean l1" "thrown_in_try e l1" by (auto simp: tried_def)
  then show ?thesis
    using Inl
    by (auto simp: post_def await_def invoke_def now_def resolve_def stepped_def outcome_def
        quiet_snoc_revert caught_result_def thrown_in_try_def generateResult_def
        split: prod.splits sum.splits
        intro!: exI[of _ "RevertAndSnapshot h"])
next
  case (Inr gn)
  obtain g1 n1 where gn: "gn = (g1, n1)" by (cases gn)
  with assms Inr have "quiet l1" "clean l1" "g1 = g0 + gas_sum l1" "n1 = Suc n0" "property_calls l1 = 1"
    by (auto simp: tried_def)
  then show ?thesis
    using Inr gn
    by (auto simp: post_def await_def invoke_def now_def resolve_def stepped_def outcome_def
        quiet_snoc_revert split: prod.splits sum.splits
        intro!: exI[of _ "RevertAndSnapshot h"])
qed

lemma stepped_try_catch_finally:
  "post (stepped g0 n0) (try_catch_finally D cfg scn startTime ctx g0 n0 h)"
  unfolding try_catch_finally_def
  by (rule post_settle[OF tried_try_block]) (rule stepped_after_try)

lemma thrown_in_try_append:
  "thrown_in_try e l1 \<or> thrown_in_try e l2 \<Longrightarrow> thrown_in_try e (l1 @ l2)"
  by (auto simp: thrown_in_try_def)

lemma caught_result_append:
  "caught_result l1 res \<or> caught_result l2 res \<Longrightarrow> caught_result (l1 @ l2) res"
  by (auto simp: caught_result_def intro: thrown_in_try_append)

lemma stepped_append: "simple (Inr a) l1 \<Longrightarrow> stepped g0 n0 r l2 \<Longrightarrow> stepped g0 n0 r (l1 @ l2)"
  by (auto simp: simple_def stepped_def quiet_clean_append no_property_gas caught_result_append
      split: sum.splits step.splits)

lemma stepped_await:
  assumes "post simple p" and "\<And>a. post (stepped g0 n0) (k a)"
  shows "post (stepped g0 n0) (await p k)"
  apply (rule post_await[OF assms(1)])
   apply (simp add: simple_def stepped_def)
  apply (rule post_weaken[OF assms(2)])
  apply (erule (1) stepped_append)
  done

lemma stepped_combo_body:
  "post (stepped g0 n0) (combo_body D cfg scn startTime context combo g0 n0 h)"
  unfolding combo_body_def
  by (intro stepped_await simple_invoke simple_apply_solutions simple_check_all
      stepped_try_catch_finally) simp

lemma looped_combo_loop:
  "post (looped g0 n0 (length cs)) (combo_loop D cfg scn startTime context cs g0 n0 h)"
proof (induction cs arbitrary: g0 n0 h)
  case Nil
  show ?case by (auto intro!: post_resolve simp: looped_def)
next
  case (Cons combo rest)
  show ?case
    unfolding combo_loop.simps
  proof (rule post_await[OF stepped_combo_body])
    fix e l1
    assume "stepped g0 n0 (Inl e) l1"
    then show "looped g0 n0 (length (combo # rest)) (Inl e) l1"
      by (simp add: stepped_def looped_def)
  next
    fix s l1
    assume s: "stepped g0 n0 (Inr s) l1"
    show "post (\<lambda>r l2. looped g0 n0 (length (combo # rest)) r (l1 @ l2))
           (case s of
              Next g1 n1 h1 \<Rightarrow> combo_loop D cfg scn startTime context rest g1 n1 h1
            | Return res \<Rightarrow> resolve (Returned res))"
    proof (cases s)
      case (Next g1 n1 h1)
      with s have 1: "clean l1" "g1 = g0 + gas_sum l1" "n1 = Suc n0" "property_calls l1 = 1"
        by (auto simp: stepped_def)
      have "post (\<lambda>r l2. looped g0 n0 (length (combo # rest)) r (l1 @ l2))
             (combo_loop D cfg scn startTime context rest g1 n1 h1)"
        by (rule post_weaken[OF Cons.IH[of g1 n1 h1]])
           (use 1 in \<open>auto simp: looped_def quiet_clean_append caught_result_append
                         split: sum.splits loop_exit.splits\<close>)
      with Next show ?thesis by simp
    next
      case (Return res)
      with s have "quiet l1" "\<not> clean l1" "caught_result l1 res" by (auto simp: stepped_def)
      with Return show ?thesis
        by (auto intro!: post_resolve simp: looped_def)
    qed
  qed
qed

lemma combos_nonempty: "list_all (\<lambda>g. g \<noteq> []) gs \<Longrightarrow> combos gs \<noteq> []"
  by (induction gs) (auto simp: neq_Nil_conv)

subsection \<open>The whole run\<close>

lemma mapSolution_nonempty: "s \<noteq> Some (Many []) \<Longrightarrow> mapSolution s \<noteq> []"
proof (cases s)
  case None
  then show ?thesis by simp
next
  case (Some v)
  assume "s \<noteq> Some (Many [])"
  with Some show ?thesis by (cases v) auto
qed

lemma solve_all_groups:
  assumes "\<forall>c \<in> set cs. \<forall>req ctx w. fst (solve c req ctx w) \<noteq> Inr (Some (Many []))"
    and "solve_all cs req ctx st = (Inr ch, st', l)"
  shows "list_all (\<lambda>g. g \<noteq> []) ch"
  using assms
proof (induction cs arbitrary: st ch st' l)
  case Nil
  then show ?case by (simp add: resolve_def)
next
  case (Cons c cs)
  obtain r1 w1 where c: "solve c req ctx (world_state st) = (r1, w1)"
    by (cases "solve c req ctx (world_state st)")
  obtain r2 st2 l2 where rest: "solve_all cs req ctx (st\<lparr>world_state := w1\<rparr>) = (r2, st2, l2)"
    by (cases "solve_all cs req ctx (st\<lparr>world_state := w1\<rparr>)")
  from Cons.prems(2) c rest obtain s ss where s: "r1 = Inr s" "r2 = Inr ss" "ch = mapSolution s # ss"
    by (cases r1; cases r2) (auto simp: settle_def invoke_def throw_def resolve_def)
  have "fst (solve c req ctx (world_state st)) \<noteq> Inr (Some (Many []))"
    using Cons.prems(1) by simp
  then have "s \<noteq> Some (Many [])" using c s(1) by auto
  moreover have "list_all (\<lambda>g. g \<noteq> []) ss"
    using Cons.IH[of "st\<lparr>world_state := w1\<rparr>" ss st2 l2] Cons.prems(1) rest s(2) by simp
  ultimately show ?case using s(3) by (simp add: mapSolution_nonempty)
qed

lemma solve_all_never_empty:
  "post (\<lambda>r l. never_empty scn \<longrightarrow> (\<forall>ch. r = Inr ch \<longrightarrow> list_all (\<lambda>g. g \<noteq> []) ch))
     (solve_all (case constraints scn of None \<Rightarrow> [] | Some cs \<Rightarrow> cs) req ctx)"
  by (rule postI) (auto simp: never_empty_def dest: solve_all_groups[rotated])

lemma run_post_append: "simple (Inr a) l1 \<Longrightarrow> run_post cfg scn r l2 \<Longrightarrow> run_post cfg scn r (l1 @ l2)"
  by (auto simp: simple_def run_post_def quiet_clean_append no_property_gas caught_result_append
      split: sum.splits)

lemma run_post_await:
  assumes "post simple p" and "\<And>a. post (run_post cfg scn) (k a)"
  shows "post (run_post cfg scn) (await p k)"
  apply (rule post_await[OF assms(1)])
   apply (simp add: simple_def run_post_def)
  apply (rule post_weaken[OF assms(2)])
  apply (erule (1) run_post_append)
  done

lemma run_post_loop:
  assumes "never_empty scn \<longrightarrow> list_all (\<lambda>g. g \<noteq> []) choices"
  shows "post (run_post cfg scn)
     (await (combo_loop D cfg scn startTime context (combos ([[identity]] @ choices)) 0 0 h)
       (\<lambda>ex. case ex of
          Returned res \<Rightarrow> resolve res
        | Completed g1 n1 \<Rightarrow>
            await (now D) (\<lambda>t.
              resolve (generateResult (base cfg) scn startTime t g1 (Count n1) JUndefined))))"
proof (rule post_await[OF looped_combo_loop])
  fix e l1
  assume "looped 0 0 (length (combos ([[identity]] @ choices))) (Inl e) l1"
  then show "run_post cfg scn (Inl e) l1" by (simp add: looped_def run_post_def)
next
  fix ex l1
  assume ex: "looped 0 0 (length (combos ([[identity]] @ choices))) (Inr ex) l1"
  have len: "never_empty scn \<longrightarrow> 1 \<le> length (combos ([[identity]] @ choices))"
  proof
    assume "never_empty scn"
    with assms have "list_all (\<lambda>g. g \<noteq> []) ([[identity]] @ choices)" by simp
    then have "combos ([[identity]] @ choices) \<noteq> []" by (rule combos_nonempty)
    then show "1 \<le> length (combos ([[identity]] @ choices))"
      by (cases "combos ([[identity]] @ choices)") auto
  qed
  show "post (\<lambda>r l2. run_post cfg scn r (l1 @ l2))
     (case ex of
        Returned res \<Rightarrow> resolve res
      | Completed g1 n1 \<Rightarrow>
          await (now D) (\<lambda>t.
            resolve (generateResult (base cfg) scn startTime t g1 (Count n1) JUndefined)))"
  proof (cases ex)
    case (Returned res)
    with ex show ?thesis by (auto intro!: post_resolve simp: looped_def run_post_def)
  next
    case (Completed g1 n1)
    with ex len show ?thesis
      by (auto simp: post_def await_def now_def resolve_def looped_def run_post_def)
  qed
qed

lemma run_post_solve:
  "post (run_post cfg scn)
     (await (solve_all (case constraints scn of None \<Rightarrow> [] | Some cs \<Rightarrow> cs) req ctx0)
       (\<lambda>solutionChoices.
          await (combo_loop D cfg scn startTime ctx0 (combos ([[identity]] @ solutionChoices)) 0 0 h)
            (\<lambda>ex. case ex of
               Returned res \<Rightarrow> resolve res
             | Completed g1 n1 \<Rightarrow>
                 await (now D) (\<lambda>t.
                   resolve (generateResult (base cfg) scn startTime t g1 (Count n1) JUndefined)))))"
proof (rule post_await[OF post_conj[OF simple_solve_all solve_all_never_empty[of scn]]])
  fix e l1
  assume "simple (Inl e :: jsval error + 'a solution list list) l1 \<and>
    (never_empty scn \<longrightarrow> (\<forall>ch. (Inl e :: jsval error + 'a solution list list) = Inr ch \<longrightarrow> list_all (\<lambda>g. g \<noteq> []) ch))"
  then show "run_post cfg scn (Inl e) l1" by (simp add: simple_def run_post_def)
next
  fix choices :: "'a solution list list" and l1
  assume a: "simple (Inr choices :: jsval error + 'a solution list list) l1 \<and>
    (never_empty scn \<longrightarrow> (\<forall>ch. (Inr choices :: jsval error + 'a solution list list) = Inr ch \<longrightarrow> list_all (\<lambda>g. g \<noteq> []) ch))"
  then have ne: "never_empty scn \<longrightarrow> list_all (\<lambda>g. g \<noteq> []) choices" by simp
  from a have sim: "simple (Inr choices :: jsval error + 'a solution list list) l1" by simp
  show "post (\<lambda>r l2. run_post cfg scn r (l1 @ l2))
    (await (combo_loop D cfg scn startTime ctx0 (combos ([[identity]] @ choices)) 0 0 h)
          (\<lambda>ex. case ex of
             Returned res \<Rightarrow> resolve res
           | Completed g1 n1 \<Rightarrow>
               await (now D) (\<lambda>t.
                 resolve (generateResult (base cfg) scn startTime t g1 (Count n1) JUndefined))))"
    by (rule post_weaken[OF run_post_loop[OF ne]]) (rule run_post_append[OF sim])
qed

lemma run_post_run: "post (run_post cfg scn) (run D cfg scn)"
  unfolding run_def
  apply (rule run_post_await[OF simple_now])
  apply (rule run_post_await[OF simple_reset_world])
  apply (rule run_post_await[OF simple_invoke], simp)
  apply (rule run_post_await[OF simple_invoke], simp)
  apply (rule run_post_solve)
  done

section \<open>Failures of a run\<close>




section \<open>The revert between combos\<close>









section \<open>The result of a failed run\<close>

text \<open>
  Given the caught error, \<^verbatim>\<open>generateResult\<close> reports it, with its stack and, for an
  assertion error whose two values differ, with the diff.
\<close>

lemma generateResult_diff:
  "diff (generateResult b scn t0 t1 g n (JError (AssertionError m s act expd))) =
     (if strict_neq act expd then Some (act, expd) else None)"
  "error (generateResult b scn t0 t1 g n (JError e)) = JError e"
  "trace (generateResult b scn t0 t1 g n (JError e)) = JString (stack e)"
  "diff (generateResult b scn t0 t1 g n (JError (Error m s))) = None"
  by (simp_all add: generateResult_def)

text \<open>
  \<^verbatim>\<open>run\<close> does not hand it the caught error as such: whenever the result comes from the
  \<^verbatim>\<open>catch\<close> block, the error sits in the field \<^verbatim>\<open>numSolutionSets\<close>.
\<close>

lemma catch_result_of_run:
  assumes "run D cfg scn st = (Inr res, st', l)" and "\<not> clean l"
  shows "\<exists>e. thrown_in_try e l \<and> numSolutionSets res = JError e \<and> gasUsed res = NaN \<and>
             error res = JNull \<and> trace res = JNull \<and> diff res = None"
proof -
  have "run_post cfg scn (Inr res) l"
    using run_post_run assms(1) by (rule postD)
  with assms(2) show ?thesis by (simp add: run_post_def caught_result_def)
qed

text \<open>
  C3 does not hold on the failure path. Three combos, the property of the second throws
  after the first succeeded: one satisfied solution set was executed, and the field
  \<^verbatim>\<open>numSolutionSets\<close> of the Result holds the caught error, because the \<^verbatim>\<open>catch\<close> block
  calls \<^verbatim>\<open>generateResult\<close> without the argument \<^verbatim>\<open>cumulativeGas\<close>.
\<close>

theorem failure_result_counts_error:
  "fst (run clock stub_config
     (stub_scenario metered (Some [solving (Some (Many [put 1, put 2, put 3]))])) start) =
   Inr \<lparr>result_base = ''mainnet'', result_file = ''scenario'',
         result_scenario = ''scenario'', gasUsed = NaN,
         numSolutionSets = JError (Error ''boom'' ''at property''),
         elapsed = 3, error = JNull, trace = JNull, diff = None\<rparr>"
  by code_simp

text \<open>
  C4 does not hold for an assertion failure. The property throws an assertion error with
  \<^verbatim>\<open>actual = 1\<close> and \<^verbatim>\<open>expected = 2\<close>; the fields \<^verbatim>\<open>diff\<close> and \<^verbatim>\<open>error\<close> of the Result
  are \<^verbatim>\<open>null\<close>, because the caught error reaches \<^verbatim>\<open>generateResult\<close> in the parameter
  \<^verbatim>\<open>numSolutionSets\<close> and the parameter \<^verbatim>\<open>err\<close> is left undefined.
\<close>

theorem assertion_failure_has_no_diff:
  "fst (run clock stub_config
     (stub_scenario
        (failing (AssertionError ''expected 1 to equal 2'' ''at property''
                   (JNumber (Finite 1)) (JNumber (Finite 2)))) None) start) =
   Inr \<lparr>result_base = ''mainnet'', result_file = ''scenario'',
         result_scenario = ''scenario'', gasUsed = NaN,
         numSolutionSets =
           JError (AssertionError ''expected 1 to equal 2'' ''at property''
                    (JNumber (Finite 1)) (JNumber (Finite 2))),
         elapsed = 2, error = JNull, trace = JNull, diff = None\<rparr>"
  by code_simp

section \<open>The number of combos\<close>

text \<open>
  C5, as stated, fails: a constraint that solves to the empty array leaves no combo, and
  \<^verbatim>\<open>run\<close> returns a Result without error although no combo was executed; the count is 0
  and the gas figure is 0/0.
\<close>

theorem empty_solution_array_runs_no_combo:
  "run clock stub_config (stub_scenario passing (Some [solving (Some (Many []))])) start =
   (Inr \<lparr>result_base = ''mainnet'', result_file = ''scenario'',
         result_scenario = ''scenario'', gasUsed = NaN,
         numSolutionSets = JNumber (Finite 0), elapsed = 2, error = JNull,
         trace = JNull, diff = None\<rparr>,
    \<lparr>world_state = (0, [0, 0]), worldSnapshot = Some ''#''\<rparr>,
    [Call Snapshot None, Call Initializer None, Call Snapshot None, Call Solve None])"
  by code_simp

text \<open>
  C5, amended. If no constraint of the scenario ever solves to an empty array, then a run
  that returns a Result and in which no call threw has called the property at least once,
  and the field \<^verbatim>\<open>numSolutionSets\<close>, the counter that divides \<^verbatim>\<open>cumulativeGas\<close>, is the
  number of those calls.
\<close>

theorem success_runs_a_combo:
  assumes "never_empty scn"
    and "run D cfg scn st = (Inr res, st', l)"
    and "clean l"
  shows "1 \<le> property_calls l \<and>
         numSolutionSets res = JNumber (Finite (of_nat (property_calls l)))"
proof -
  have "run_post cfg scn (Inr res) l"
    using run_post_run assms(2) by (rule postD)
  with assms(1,3) show ?thesis
    by (auto simp: run_post_def generateResult_def)
qed

theorem success_runs_a_combo_witness:
  "never_empty (stub_scenario passing (Some [solving None]))
   \<and> run clock stub_config (stub_scenario passing (Some [solving None])) start =
     (Inr \<lparr>result_base = ''mainnet'', result_file = ''scenario'',
         result_scenario = ''scenario'', gasUsed = Finite 0,
         numSolutionSets = JNumber (Finite 1), elapsed = 3, error = JNull,
         trace = JNull, diff = None\<rparr>,
      \<lparr>world_state = (0, [0, 0, 0]), worldSnapshot = Some ''#''\<rparr>,
      [Call Snapshot None, Call Initializer None, Call Snapshot None,
       Call Solve None, Call Forker None, Call Solution None,
       Call Solution None, Call Check None, Call Transformer None,
       PropertyCall (Inr None), Call (RevertAndSnapshot ''##'') None])
   \<and> 1 \<le> property_calls
       [Call Snapshot None, Call Initializer None, Call Snapshot None,
        Call Solve None, Call Forker None, Call Solution None,
        Call Solution None, Call Check None, Call Transformer None,
        PropertyCall (Inr None), Call (RevertAndSnapshot ''##'') None]"
proof -
  have ne: "never_empty (stub_scenario passing (Some [solving None]))"
    by (simp add: never_empty_def stub_scenario_def solving_def)
  have eq: "run clock stub_config (stub_scenario passing (Some [solving None])) start =
     (Inr \<lparr>result_base = ''mainnet'', result_file = ''scenario'',
         result_scenario = ''scenario'', gasUsed = Finite 0,
         numSolutionSets = JNumber (Finite 1), elapsed = 3, error = JNull,
         trace = JNull, diff = None\<rparr>,
      \<lparr>world_state = (0, [0, 0, 0]), worldSnapshot = Some ''#''\<rparr>,
      [Call Snapshot None, Call Initializer None, Call Snapshot None,
       Call Solve None, Call Forker None, Call Solution None,
       Call Solution None, Call Check None, Call Transformer None,
       PropertyCall (Inr None), Call (RevertAndSnapshot ''##'') None])"
    by code_simp
  have cl: "clean [Call Snapshot None, Call Initializer None, Call Snapshot None,
       Call Solve None, Call Forker None, Call Solution None,
       Call Solution None, Call Check None, Call Transformer None,
       PropertyCall (Inr None), Call (RevertAndSnapshot ''##'') None]"
    by simp
  from success_runs_a_combo[OF ne eq cl] ne eq show ?thesis by blast
qed

section \<open>The identity group\<close>

lemma combos_identity_first: "combos ([[identity]] @ gs) = map ((#) identity) (combos gs)"
  by simp






section \<open>The mean gas\<close>



section \<open>The short circuit\<close>

text \<open>
  C9. After a call that threw, \<^verbatim>\<open>run\<close> makes no call on behalf of a combo: it does not call
  the property again, nor the forker, a solution, a check or the transformer. With three
  combos of which the second fails, the property is called twice.
\<close>

theorem failure_short_circuit:
  assumes "run D cfg scn st = (r, st', l)"
    and "l = l1 @ ev # l2"
    and "threw ev"
    and "ev' \<in> set l2"
  shows "\<not> is_property ev' \<and> \<not> combo_event ev'"
proof -
  have "run_post cfg scn r l"
    using run_post_run assms(1) by (rule postD)
  then have "quiet (l1 @ ev # l2)"
    using assms(2) by (simp add: run_post_def)
  then have "\<not> combo_event ev'"
    using assms(3,4) by (rule quiet_after)
  then show ?thesis by (cases ev') auto
qed

theorem failure_short_circuit_witness:
  "run clock stub_config
     (stub_scenario metered (Some [solving (Some (Many [put 1, put 2, put 3]))])) start =
   (Inr \<lparr>result_base = ''mainnet'', result_file = ''scenario'',
         result_scenario = ''scenario'', gasUsed = NaN,
         numSolutionSets = JError (Error ''boom'' ''at property''),
         elapsed = 3, error = JNull, trace = JNull, diff = None\<rparr>,
    \<lparr>world_state = (0, [0, 0, 0, 0]), worldSnapshot = Some ''#''\<rparr>,
    [Call Snapshot None, Call Initializer None, Call Snapshot None,
     Call Solve None, Call Forker None, Call Solution None,
     Call Solution None, Call Check None, Call Transformer None,
     PropertyCall (Inr (Some \<lparr>cumulativeGasUsed = BigNumber (Inr 1)\<rparr>)),
     Call ToNumber None, Call (RevertAndSnapshot ''##'') None,
     Call Forker None, Call Solution None, Call Solution None,
     Call Check None, Call Transformer None]
     @ PropertyCall (Inl (Error ''boom'' ''at property''))
     # [Call (RevertAndSnapshot ''###'') None])
   \<and> threw (PropertyCall (Inl (Error ''boom'' ''at property'')))
   \<and> Call (RevertAndSnapshot ''###'') None \<in> set [Call (RevertAndSnapshot ''###'') None]
   \<and> \<not> is_property (Call (RevertAndSnapshot ''###'') None)
   \<and> \<not> combo_event (Call (RevertAndSnapshot ''###'') None)
   \<and> property_calls (snd (snd (run clock stub_config
         (stub_scenario metered (Some [solving (Some (Many [put 1, put 2, put 3]))])) start))) = 2"
proof -
  have eq: "run clock stub_config
     (stub_scenario metered (Some [solving (Some (Many [put 1, put 2, put 3]))])) start =
   (Inr \<lparr>result_base = ''mainnet'', result_file = ''scenario'',
         result_scenario = ''scenario'', gasUsed = NaN,
         numSolutionSets = JError (Error ''boom'' ''at property''),
         elapsed = 3, error = JNull, trace = JNull, diff = None\<rparr>,
    \<lparr>world_state = (0, [0, 0, 0, 0]), worldSnapshot = Some ''#''\<rparr>,
    [Call Snapshot None, Call Initializer None, Call Snapshot None,
     Call Solve None, Call Forker None, Call Solution None,
     Call Solution None, Call Check None, Call Transformer None,
     PropertyCall (Inr (Some \<lparr>cumulativeGasUsed = BigNumber (Inr 1)\<rparr>)),
     Call ToNumber None, Call (RevertAndSnapshot ''##'') None,
     Call Forker None, Call Solution None, Call Solution None,
     Call Check None, Call Transformer None]
     @ PropertyCall (Inl (Error ''boom'' ''at property''))
     # [Call (RevertAndSnapshot ''###'') None])"
    by code_simp
  have t: "threw (PropertyCall (Inl (Error ''boom'' ''at property'')))" by simp
  have m: "Call (RevertAndSnapshot ''###'') None \<in> set [Call (RevertAndSnapshot ''###'') None]"
    by simp
  from failure_short_circuit[OF eq refl t m] eq t m show ?thesis
    by (simp add: property_calls_def)
qed

section \<open>Solutions that resolve to a falsy value\<close>





end
